theory Spec2Isabelle
  imports Complex_Main "HOL-Library.Sublist" "HOL-Library.Product_Lexorder"
begin

section \<open>JavaScript primitives used by lib/posts.ts\<close>

text \<open>
  Strings are modelled as \<^typ>\<open>string\<close>, one \<^typ>\<open>char\<close> per code unit in the
  Latin-1 range. Dates are their \<open>getTime()\<close> value, an \<^typ>\<open>int\<close> of milliseconds.
  Numbers that the code only uses as counts, limits and offsets are \<^typ>\<open>int\<close>. Scores are
  doubles: a score is the \<^typ>\<open>rat\<close> that the double denotes, and every arithmetic
  operation rounds its exact result to the nearest double, ties to even.
\<close>

datatype error = SyntaxError

definition isWhiteSpace :: "char \<Rightarrow> bool" where
  \<comment> \<open>the characters matched by \<open>\s\<close> and removed by \<open>trim()\<close>, below U+0100\<close>
  "isWhiteSpace c \<longleftrightarrow> (of_char c :: nat) \<in> {9, 10, 11, 12, 13, 32, 160}"

definition toLowerChar :: "char \<Rightarrow> char" where
  "toLowerChar c =
     (let n = (of_char c :: nat)
      in if (65 \<le> n \<and> n \<le> 90) \<or> (192 \<le> n \<and> n \<le> 222 \<and> n \<noteq> 215)
         then char_of (n + 32) else c)"

definition toLowerCase :: "string \<Rightarrow> string" where
  "toLowerCase s = map toLowerChar s"

definition trim :: "string \<Rightarrow> string" where
  "trim s = rev (dropWhile isWhiteSpace (rev (dropWhile isWhiteSpace s)))"

fun js_includes :: "string \<Rightarrow> string \<Rightarrow> bool" where
  \<comment> \<open>\<open>s.includes(t)\<close>\<close>
  "js_includes [] t = (t = [])"
| "js_includes (c # cs) t = (prefix t (c # cs) \<or> js_includes cs t)"

definition startsWith :: "string \<Rightarrow> string \<Rightarrow> bool" where
  "startsWith s t = prefix t s"

function splitFrom :: "string \<Rightarrow> string \<Rightarrow> string list" where
  \<comment> \<open>\<open>s.split(/\s+/)\<close>; the first argument is the piece read so far, reversed\<close>
  "splitFrom acc [] = [rev acc]"
| "splitFrom acc (c # cs) =
     (if isWhiteSpace c then rev acc # splitFrom [] (dropWhile isWhiteSpace cs)
      else splitFrom (c # acc) cs)"
  by pat_completeness auto
termination
  by (relation "measure (\<lambda>(acc, s). length s)")
     (auto simp: length_dropWhile_le less_Suc_eq_le)

definition splitWhitespace :: "string \<Rightarrow> string list" where
  "splitWhitespace s = splitFrom [] s"

definition js_slice :: "int \<Rightarrow> int \<Rightarrow> 'a list \<Rightarrow> 'a list" where
  \<comment> \<open>\<open>xs.slice(start, fin)\<close>: a negative index counts from the end\<close>
  "js_slice start fin xs =
     (let len = int (length xs);
          k = (if start < 0 then max (len + start) 0 else min start len);
          final = (if fin < 0 then max (len + fin) 0 else min fin len)
      in take (nat (final - k)) (drop (nat k) xs))"

subsection \<open>Double arithmetic\<close>

text \<open>
  \<open>toDouble q\<close> is the double nearest to \<open>q\<close>: 53 significant bits, and below \<open>2^-1022\<close> the
  fixed spacing of the subnormal numbers. No quantity of the model comes near \<open>2^1024\<close>, so
  there is no case for infinity. The stored counts are read as the integers they denote.
\<close>

function bitLength :: "int \<Rightarrow> int" where
  \<comment> \<open>the number of binary digits of a positive integer\<close>
  "bitLength n = (if n \<le> 0 then 0 else 1 + bitLength (n div 2))"
  by pat_completeness auto
termination
  by (relation "measure nat") auto

declare bitLength.simps [simp del]

function pow2 :: "int \<Rightarrow> int" where
  "pow2 k = (if k \<le> 0 then 1 else 2 * pow2 (k - 1))"
  by pat_completeness auto
termination
  by (relation "measure nat") auto

declare pow2.simps [simp del]

definition binaryExponent :: "int \<Rightarrow> int \<Rightarrow> int" where
  \<comment> \<open>the \<open>e\<close> with \<open>2^e \<le> n / d < 2^(e + 1)\<close>, for positive \<open>n\<close> and \<open>d\<close>\<close>
  "binaryExponent n d =
     (let e = bitLength n - bitLength d
      in if (if 0 \<le> e then pow2 e * d \<le> n else d \<le> n * pow2 (- e)) then e else e - 1)"

definition roundedQuotient :: "int \<Rightarrow> int \<Rightarrow> int" where
  \<comment> \<open>\<open>num / den\<close> rounded to the nearest integer, a tie to the even one\<close>
  "roundedQuotient num den =
     (let f = num div den; r = num mod den
      in if 2 * r < den then f else if den < 2 * r then f + 1 else if even f then f else f + 1)"

definition toDouble :: "rat \<Rightarrow> rat" where
  "toDouble q =
     (if q = 0 then 0
      else let (a, d) = quotient_of q;
               n = \<bar>a\<bar>;
               shift = 52 - max (binaryExponent n d) (- 1022);
               m = (if 0 \<le> shift then roundedQuotient (n * pow2 shift) d
                    else roundedQuotient n (d * pow2 (- shift)));
               v = (if 0 \<le> shift then of_int m / of_int (pow2 shift)
                    else of_int (m * pow2 (- shift)))
           in if a < 0 then - v else v)"

definition js_add :: "rat \<Rightarrow> rat \<Rightarrow> rat" where
  "js_add x y = toDouble (x + y)"

definition js_sub :: "rat \<Rightarrow> rat \<Rightarrow> rat" where
  "js_sub x y = toDouble (x - y)"

definition js_mul :: "rat \<Rightarrow> rat \<Rightarrow> rat" where
  "js_mul x y = toDouble (x * y)"

definition js_div :: "rat \<Rightarrow> rat \<Rightarrow> rat" where
  "js_div x y = toDouble (x / y)"

subsection \<open>Regular expressions built from a search term\<close>

text \<open>
  \<open>new RegExp(term, 'g')\<close> compiles the term as a pattern. A term without syntax
  characters is a literal pattern, and \<open>match\<close> returns its non-overlapping occurrences
  from left to right. A pattern that begins with a quantifier, or that has no escape and no
  character class and either repeats a quantifier or has parentheses that do not balance,
  does not parse: the constructor throws \<open>SyntaxError\<close>. What the engine does on the
  remaining patterns is a parameter of the model.
\<close>

type_synonym regexp_engine = "string \<Rightarrow> string \<Rightarrow> error + nat"

definition syntaxCharacter :: "char \<Rightarrow> bool" where
  "syntaxCharacter c \<longleftrightarrow>
     c \<in> {CHR 0x5C, CHR ''^'', CHR ''$'', CHR ''.'', CHR ''|'', CHR ''?'', CHR ''*'', CHR ''+'',
          CHR ''('', CHR '')'', CHR ''['', CHR '']'', CHR ''{'', CHR ''}''}"

definition literalPattern :: "string \<Rightarrow> bool" where
  "literalPattern t = list_all (\<lambda>c. \<not> syntaxCharacter c) t"

fun repeatedQuantifier :: "string \<Rightarrow> bool" where
  \<comment> \<open>a \<open>*\<close> or \<open>+\<close> directly after a \<open>*\<close> or \<open>+\<close>, as in \<open>c++\<close>\<close>
  "repeatedQuantifier (a # b # cs) =
     (if List.member ''*+'' a \<and> List.member ''*+'' b then True else repeatedQuantifier (b # cs))"
| "repeatedQuantifier _ = False"

definition invalidPattern :: "string \<Rightarrow> bool" where
  "invalidPattern t =
     (if (case t of [] \<Rightarrow> False | c # _ \<Rightarrow> List.member ''*+?'' c) then True
      else if List.member t (CHR 0x5C) then False
      else if List.member t CHR ''['' then False
      else if repeatedQuantifier t then True
      else count_list t CHR ''('' \<noteq> count_list t CHR '')'')"

function countLiteral :: "string \<Rightarrow> string \<Rightarrow> nat" where
  \<comment> \<open>number of matches of the literal pattern \<open>t\<close>, scanning left to right\<close>
  "countLiteral t [] = (if t = [] then 1 else 0)"
| "countLiteral t (c # cs) =
     (if t = [] then 1 + countLiteral t cs
      else if prefix t (c # cs) then 1 + countLiteral t (drop (length t) (c # cs))
      else countLiteral t cs)"
  by pat_completeness auto
termination
  by (relation "measure (\<lambda>(t, s). length s)") auto

definition matchCount :: "regexp_engine \<Rightarrow> string \<Rightarrow> string \<Rightarrow> error + nat" where
  \<comment> \<open>\<open>(s.match(new RegExp(term, 'g')) || []).length\<close>\<close>
  "matchCount eng t s =
     (if literalPattern t then Inr (countLiteral t s)
      else if invalidPattern t then Inl SyntaxError
      else eng t s)"

section \<open>The record collection (types/post.ts)\<close>

text \<open>
  The records keep the fields that the listing, search, recommendation and publication
  logic of lib/posts.ts reads or writes. The slug, the SEO and social fields, the reading
  time and the word count are not part of the model: none of the modelled branches depends
  on them. The store is the list that \<open>readPosts()\<close> returns; a call sees one snapshot.
  \<open>readPosts()\<close> turns \<open>createdAt\<close>, \<open>updatedAt\<close> and \<open>publishedAt\<close> into Date objects and leaves
  \<open>scheduledPublishAt\<close> as the ISO text of the file: the field of the model is the instant
  that this text denotes.
\<close>

datatype PostStatus = Draft | Published | Archived

record Post =
  id_p :: string
  title :: string
  content :: string
  excerpt :: string
  author :: string
  published :: bool
  publishedAt :: "int option"
  createdAt :: int
  updatedAt :: int
  tags :: "string list"
  category :: string
  status :: PostStatus
  scheduledPublishAt :: "int option"
  viewCount :: int
  likeCount :: int
  commentCount :: int
  series :: "string option"
  relatedPosts :: "string list option"

datatype SortField = ByCreatedAt | ByUpdatedAt | ByPublishedAt | ByViewCount | ByLikeCount

datatype SortOrder = Asc | Desc

record PostFilters =
  f_published :: "bool option"
  f_author :: "string option"
  f_category :: "string option"
  f_tag :: "string option"
  f_limit :: "int option"
  f_offset :: "int option"
  f_sortBy :: "SortField option"
  f_sortOrder :: "SortOrder option"
  f_status :: "PostStatus option"
  f_series :: "string option"
  f_dateFrom :: "int option"
  f_dateTo :: "int option"
  f_minViews :: "int option"
  f_search :: "string option"
  f_excludeIds :: "string list option"

definition noFilters :: PostFilters where
  \<comment> \<open>the object \<open>{}\<close>\<close>
  "noFilters = \<lparr> f_published = None, f_author = None, f_category = None, f_tag = None,
     f_limit = None, f_offset = None, f_sortBy = None, f_sortOrder = None, f_status = None,
     f_series = None, f_dateFrom = None, f_dateTo = None, f_minViews = None, f_search = None,
     f_excludeIds = None \<rparr>"

definition whenGiven :: "string option \<Rightarrow> (string \<Rightarrow> bool) \<Rightarrow> bool" where
  \<comment> \<open>\<open>if (filters.x) { posts = posts.filter(P) }\<close>: an absent or empty string filters nothing\<close>
  "whenGiven s P = (case s of None \<Rightarrow> True | Some v \<Rightarrow> if v = [] then True else P v)"

definition effectiveDate :: "Post \<Rightarrow> int" where
  \<comment> \<open>\<open>post.publishedAt || post.createdAt\<close>: a Date object is never falsy\<close>
  "effectiveDate p = (case publishedAt p of Some d \<Rightarrow> d | None \<Rightarrow> createdAt p)"

subsection \<open>getPosts\<close>

definition matchesSearch :: "string \<Rightarrow> Post \<Rightarrow> bool" where
  "matchesSearch searchTerm p \<longleftrightarrow>
     js_includes (toLowerCase (title p)) searchTerm
     \<or> js_includes (toLowerCase (content p)) searchTerm
     \<or> js_includes (toLowerCase (excerpt p)) searchTerm
     \<or> list_ex (\<lambda>tag. js_includes (toLowerCase tag) searchTerm) (tags p)
     \<or> js_includes (toLowerCase (category p)) searchTerm
     \<or> js_includes (toLowerCase (author p)) searchTerm"

definition keep :: "PostFilters \<Rightarrow> Post \<Rightarrow> bool" where
  \<comment> \<open>the conjunction of the \<open>posts.filter\<close> steps of getPosts\<close>
  "keep filters p \<longleftrightarrow>
     (case f_published filters of None \<Rightarrow> True | Some b \<Rightarrow> published p = b)
     \<and> whenGiven (f_author filters)
          (\<lambda>a. js_includes (toLowerCase (author p)) (toLowerCase a))
     \<and> whenGiven (f_category filters) (\<lambda>c. toLowerCase (category p) = toLowerCase c)
     \<and> whenGiven (f_tag filters)
          (\<lambda>t. list_ex (\<lambda>tag. js_includes (toLowerCase tag) (toLowerCase t)) (tags p))
     \<and> (case f_status filters of None \<Rightarrow> True | Some st \<Rightarrow> status p = st)
     \<and> whenGiven (f_series filters)
          (\<lambda>s. case series p of None \<Rightarrow> False
                | Some ps \<Rightarrow> js_includes (toLowerCase ps) (toLowerCase s))
     \<and> (case f_dateFrom filters of None \<Rightarrow> True | Some d \<Rightarrow> createdAt p \<ge> d)
     \<and> (case f_dateTo filters of None \<Rightarrow> True | Some d \<Rightarrow> createdAt p \<le> d)
     \<and> (case f_minViews filters of None \<Rightarrow> True | Some v \<Rightarrow> viewCount p \<ge> v)
     \<and> (case f_excludeIds filters of None \<Rightarrow> True
         | Some ids \<Rightarrow> if ids = [] then True else \<not> List.member ids (id_p p))
     \<and> whenGiven (f_search filters) (\<lambda>s. matchesSearch (toLowerCase s) p)"

definition sortValue :: "SortField option \<Rightarrow> Post \<Rightarrow> int" where
  "sortValue sortBy p =
     (case sortBy of
        Some ByPublishedAt \<Rightarrow> effectiveDate p
      | Some ByUpdatedAt \<Rightarrow> updatedAt p
      | Some ByViewCount \<Rightarrow> viewCount p
      | Some ByLikeCount \<Rightarrow> likeCount p
      | _ \<Rightarrow> createdAt p)"

definition sortPosts :: "PostFilters \<Rightarrow> Post list \<Rightarrow> Post list" where
  \<comment> \<open>\<open>posts.sort(...)\<close>: the sort is stable, and the comparator, a difference of two
      integers, has the sign of their exact difference\<close>
  "sortPosts filters posts =
     (if f_sortOrder filters = Some Asc then sort_key (sortValue (f_sortBy filters)) posts
      else sort_key (\<lambda>p. - sortValue (f_sortBy filters) p) posts)"

definition paginate :: "PostFilters \<Rightarrow> Post list \<Rightarrow> Post list" where
  "paginate filters posts =
     (let offset = (case f_offset filters of None \<Rightarrow> 0 | Some off \<Rightarrow> off);
          limit = (case f_limit filters of None \<Rightarrow> int (length posts)
                   | Some l \<Rightarrow> if l = 0 then int (length posts) else l)
      in js_slice offset (offset + limit) posts)"

definition getPosts :: "PostFilters \<Rightarrow> Post list \<Rightarrow> Post list" where
  "getPosts filters store = paginate filters (sortPosts filters (filter (keep filters) store))"

definition getPostById :: "Post list \<Rightarrow> string \<Rightarrow> Post option" where
  "getPostById store i = find (\<lambda>p. id_p p = i) store"

section \<open>searchPosts\<close>

text \<open>
  \<open>Date.now()\<close> is read as one value \<open>now\<close> for the whole call. Each scoring function takes
  the score so far and returns it after the \<open>score += ...\<close> statements of its part of the
  loop body.
\<close>

definition searchTerms :: "string \<Rightarrow> string list" where
  \<comment> \<open>\<open>query.toLowerCase().trim().split(/\s+/).filter(term => term.length > 0)\<close>\<close>
  "searchTerms query = filter (\<lambda>term. length term > 0) (splitWhitespace (trim (toLowerCase query)))"

definition titleScore :: "string \<Rightarrow> string \<Rightarrow> rat \<Rightarrow> rat" where
  "titleScore titleLower term score =
     (if titleLower = term then js_add score 100
      else if startsWith titleLower term then js_add score 50
      else if js_includes titleLower term then js_add score 30
      else score)"

definition tagScore :: "string list \<Rightarrow> string \<Rightarrow> rat \<Rightarrow> rat" where
  "tagScore tagsLower term score =
     js_add score
       (js_mul (of_nat (length (filter (\<lambda>tag. tag = term \<or> js_includes tag term) tagsLower))) 25)"

definition categoryScore :: "string \<Rightarrow> string \<Rightarrow> rat \<Rightarrow> rat" where
  "categoryScore categoryLower term score =
     (if categoryLower = term then js_add score 20
      else if js_includes categoryLower term then js_add score 10
      else score)"

definition authorScore :: "string \<Rightarrow> string \<Rightarrow> rat \<Rightarrow> rat" where
  "authorScore authorLower term score =
     (if js_includes authorLower term then js_add score 15 else score)"

definition excerptScore :: "regexp_engine \<Rightarrow> string \<Rightarrow> string \<Rightarrow> rat \<Rightarrow> error + rat" where
  "excerptScore eng excerptLower term score =
     (if js_includes excerptLower term
      then (case matchCount eng term excerptLower of
              Inl e \<Rightarrow> Inl e
            | Inr matches \<Rightarrow> Inr (js_add (js_add score 10) (js_mul (of_nat matches) 2)))
      else Inr score)"

definition contentScore :: "regexp_engine \<Rightarrow> string \<Rightarrow> string \<Rightarrow> rat \<Rightarrow> error + rat" where
  "contentScore eng contentLower term score =
     (if js_includes contentLower term
      then (case matchCount eng term contentLower of
              Inl e \<Rightarrow> Inl e
            | Inr matches \<Rightarrow> Inr (js_add (js_add score 5) (of_nat (min matches 10))))
      else Inr score)"

definition termScore :: "regexp_engine \<Rightarrow> Post \<Rightarrow> string \<Rightarrow> rat \<Rightarrow> error + rat" where
  \<comment> \<open>one turn of \<open>searchTerms.forEach\<close>\<close>
  "termScore eng post term score =
     (let s = titleScore (toLowerCase (title post)) term score;
          s = tagScore (map toLowerCase (tags post)) term s;
          s = categoryScore (toLowerCase (category post)) term s;
          s = authorScore (toLowerCase (author post)) term s
      in case excerptScore eng (toLowerCase (excerpt post)) term s of
           Inl e \<Rightarrow> Inl e
         | Inr s \<Rightarrow> contentScore eng (toLowerCase (content post)) term s)"

fun termsScore :: "regexp_engine \<Rightarrow> Post \<Rightarrow> string list \<Rightarrow> rat \<Rightarrow> error + rat" where
  "termsScore eng post [] score = Inr score"
| "termsScore eng post (term # rest) score =
     (case termScore eng post term score of
        Inl e \<Rightarrow> Inl e
      | Inr s \<Rightarrow> termsScore eng post rest s)"

definition daysSincePublished :: "int \<Rightarrow> Post \<Rightarrow> rat" where
  "daysSincePublished now post =
     js_div (js_sub (of_int now) (of_int (effectiveDate post))) (1000 * 60 * 60 * 24)"

definition recencyBonus :: "int \<Rightarrow> Post \<Rightarrow> rat \<Rightarrow> rat" where
  "recencyBonus now post score =
     (if daysSincePublished now post < 30 then js_add score 5 else score)"

definition popularityBonus :: "Post \<Rightarrow> rat \<Rightarrow> rat" where
  "popularityBonus post score =
     (if viewCount post > 100
      then js_add score (min (js_div (of_int (viewCount post)) 100) 5)
      else score)"

definition scorePost :: "regexp_engine \<Rightarrow> int \<Rightarrow> string list \<Rightarrow> Post \<Rightarrow> error + rat" where
  "scorePost eng now terms post =
     (case termsScore eng post terms 0 of
        Inl e \<Rightarrow> Inl e
      | Inr s \<Rightarrow> Inr (popularityBonus post (recencyBonus now post s)))"

fun scoredPosts :: "regexp_engine \<Rightarrow> int \<Rightarrow> string list \<Rightarrow> Post list \<Rightarrow> error + (Post \<times> rat) list" where
  \<comment> \<open>\<open>posts.map(post => ({ post, score }))\<close>, stopping at the first exception\<close>
  "scoredPosts eng now terms [] = Inr []"
| "scoredPosts eng now terms (post # posts) =
     (case scorePost eng now terms post of
        Inl e \<Rightarrow> Inl e
      | Inr s \<Rightarrow>
          (case scoredPosts eng now terms posts of
             Inl e \<Rightarrow> Inl e
           | Inr rest \<Rightarrow> Inr ((post, s) # rest)))"

definition relevantPosts :: "(Post \<times> rat) list \<Rightarrow> Post list" where
  \<comment> \<open>drop the zero scores, sort by score and then by date, both descending; the
      comparator's differences of doubles and of dates have the sign of the exact difference\<close>
  "relevantPosts scored =
     map fst (sort_key (\<lambda>item. (- snd item, - effectiveDate (fst item)))
                (filter (\<lambda>item. snd item > 0) scored))"

definition applyLimit :: "int option \<Rightarrow> Post list \<Rightarrow> Post list" where
  "applyLimit limit posts =
     (case limit of None \<Rightarrow> posts | Some l \<Rightarrow> if l = 0 then posts else js_slice 0 l posts)"

definition searchPosts ::
  "regexp_engine \<Rightarrow> int \<Rightarrow> string \<Rightarrow> PostFilters \<Rightarrow> Post list \<Rightarrow> error + Post list" where
  "searchPosts eng now query filters store =
     (if query = [] \<or> length (trim query) = 0 then Inr (getPosts filters store)
      else let terms = searchTerms query in
        if length terms = 0 then Inr (getPosts filters store)
        else let posts = getPosts (filters\<lparr>f_search := None\<rparr>) store in
          (case scoredPosts eng now terms posts of
             Inl e \<Rightarrow> Inl e
           | Inr scored \<Rightarrow> Inr (applyLimit (f_limit filters) (relevantPosts scored))))"

section \<open>getRelatedPosts\<close>

definition validateRelatedPosts :: "Post list \<Rightarrow> string list \<Rightarrow> string list \<times> string list" where
  \<comment> \<open>the pair \<open>(valid, invalid)\<close>\<close>
  "validateRelatedPosts store postIds =
     (filter (\<lambda>i. List.member (map id_p store) i) postIds,
      filter (\<lambda>i. \<not> List.member (map id_p store) i) postIds)"

definition recommendationDate :: "Post \<Rightarrow> int" where
  \<comment> \<open>\<open>relatedPost.publishedAt?.getTime() || relatedPost.createdAt.getTime()\<close>:
      the number 0 is falsy\<close>
  "recommendationDate p =
     (case publishedAt p of None \<Rightarrow> createdAt p | Some d \<Rightarrow> if d = 0 then createdAt p else d)"

definition similarityScore :: "int \<Rightarrow> Post \<Rightarrow> Post \<Rightarrow> rat" where
  "similarityScore now post relatedPost =
     (let s = 0;
          s = (if category relatedPost = category post then js_add s 30 else s);
          sharedTags = length (filter (\<lambda>tag. List.member (tags post) tag) (tags relatedPost));
          s = js_add s (js_mul (of_nat sharedTags) 20);
          s = (if author relatedPost = author post then js_add s 10 else s);
          s = (if series relatedPost = series post
                  \<and> (case series relatedPost of None \<Rightarrow> False | Some v \<Rightarrow> v \<noteq> [])
               then js_add s 25 else s);
          days = js_div (js_sub (of_int now) (of_int (recommendationDate relatedPost)))
                   (1000 * 60 * 60 * 24);
          s = (if days < 30 then js_add s 5 else s)
      in if viewCount relatedPost > 100
         then js_add s (min (js_div (of_int (viewCount relatedPost)) 100) 10)
         else s)"

definition publishedExcept :: "string \<Rightarrow> PostFilters" where
  \<comment> \<open>\<open>{ published: true, excludeIds: [postId] }\<close>\<close>
  "publishedExcept postId = noFilters\<lparr>f_published := Some True, f_excludeIds := Some [postId]\<rparr>"

definition automaticRelated :: "int \<Rightarrow> Post list \<Rightarrow> Post \<Rightarrow> string \<Rightarrow> int \<Rightarrow> Post list" where
  \<comment> \<open>the part of getRelatedPosts after the manual relations\<close>
  "automaticRelated now store post postId limit =
     (let related = getPosts ((publishedExcept postId)\<lparr>f_limit := Some (limit * 3)\<rparr>) store;
          scored = map (\<lambda>relatedPost. (relatedPost, similarityScore now post relatedPost)) related
      in map fst (js_slice 0 limit (sort_key (\<lambda>item. - snd item) scored)))"

definition manualRelated :: "Post list \<Rightarrow> string \<Rightarrow> string list \<Rightarrow> int \<Rightarrow> Post list" where
  \<comment> \<open>the list \<open>filtered\<close>\<close>
  "manualRelated store postId valid limit =
     js_slice 0 limit
       (filter (\<lambda>p. List.member valid (id_p p)) (getPosts (publishedExcept postId) store))"

definition getRelatedPosts :: "int \<Rightarrow> Post list \<Rightarrow> string \<Rightarrow> int \<Rightarrow> Post list" where
  "getRelatedPosts now store postId limit =
     (case getPostById store postId of
        None \<Rightarrow> []
      | Some post \<Rightarrow>
          (case relatedPosts post of
             None \<Rightarrow> automaticRelated now store post postId limit
           | Some rel \<Rightarrow>
               if length rel > 0 then
                 (let valid = fst (validateRelatedPosts store rel) in
                  if length valid > 0 then
                    (let filtered = manualRelated store postId valid limit in
                     if int (length filtered) \<ge> limit then filtered
                     else automaticRelated now store post postId (limit - int (length filtered)))
                  else automaticRelated now store post postId limit)
               else automaticRelated now store post postId limit))"

section \<open>Publication state: createPost, updatePost, bulkPublishPosts, publishScheduledPosts\<close>

record CreatePostRequest =
  c_title :: string
  c_content :: string
  c_excerpt :: string
  c_author :: string
  c_published :: "bool option"
  c_tags :: "string list option"
  c_category :: "string option"
  c_status :: "PostStatus option"
  c_scheduledPublishAt :: "int option"
  c_series :: "string option"
  c_relatedPosts :: "string list option"

text \<open>
  In an update request \<open>None\<close> is an absent key. For \<open>scheduledPublishAt\<close> the code tells
  \<open>undefined\<close> (\<open>None\<close>) from \<open>null\<close> (\<open>Some None\<close>) and from a date.
\<close>

record UpdatePostRequest =
  u_title :: "string option"
  u_content :: "string option"
  u_excerpt :: "string option"
  u_author :: "string option"
  u_published :: "bool option"
  u_tags :: "string list option"
  u_category :: "string option"
  u_status :: "PostStatus option"
  u_scheduledPublishAt :: "int option option"
  u_series :: "string option"
  u_relatedPosts :: "string list option"

definition noUpdate :: UpdatePostRequest where
  "noUpdate = \<lparr> u_title = None, u_content = None, u_excerpt = None, u_author = None,
     u_published = None, u_tags = None, u_category = None, u_status = None,
     u_scheduledPublishAt = None, u_series = None, u_relatedPosts = None \<rparr>"

definition orElse :: "'a option \<Rightarrow> 'a \<Rightarrow> 'a" where
  "orElse v d = (case v of None \<Rightarrow> d | Some x \<Rightarrow> x)"

definition createPost :: "int \<Rightarrow> string \<Rightarrow> CreatePostRequest \<Rightarrow> Post list \<Rightarrow> Post \<times> Post list" where
  \<comment> \<open>\<open>newId\<close> stands for the generated identifier; the result is the post and the new store\<close>
  "createPost now newId data store =
     (let shouldPublish = (c_status data = Some Published
            \<and> (case c_scheduledPublishAt data of None \<Rightarrow> True | Some d \<Rightarrow> d \<le> now));
          post = \<lparr> id_p = newId, title = c_title data, content = c_content data,
            excerpt = c_excerpt data, author = c_author data, published = shouldPublish,
            publishedAt = (if shouldPublish then Some (orElse (c_scheduledPublishAt data) now) else None),
            createdAt = now, updatedAt = now, tags = orElse (c_tags data) [],
            category = (case c_category data of None \<Rightarrow> ''Uncategorized''
                        | Some c \<Rightarrow> if c = [] then ''Uncategorized'' else c),
            status = orElse (c_status data) Draft,
            scheduledPublishAt = c_scheduledPublishAt data,
            viewCount = 0, likeCount = 0, commentCount = 0,
            series = c_series data, relatedPosts = Some (orElse (c_relatedPosts data) []) \<rparr>
      in (post, store @ [post]))"

fun findIndex :: "('a \<Rightarrow> bool) \<Rightarrow> 'a list \<Rightarrow> nat option" where
  "findIndex P [] = None"
| "findIndex P (x # xs) = (if P x then Some 0 else map_option Suc (findIndex P xs))"

definition updatedPost :: "int \<Rightarrow> UpdatePostRequest \<Rightarrow> Post \<Rightarrow> Post" where
  "updatedPost now data existingPost =
     (let newStatus = orElse (u_status data) (status existingPost);
          newPublished = orElse (u_published data) (published existingPost);
          newPublishedAt = publishedAt existingPost;
          (newPublished, newPublishedAt) =
             (if newStatus = Published
              then (True, Some (orElse newPublishedAt now))
              else (newPublished, newPublishedAt));
          (newPublished, newPublishedAt) =
             (case u_scheduledPublishAt data of
                Some (Some d) \<Rightarrow>
                  if d \<le> now \<and> newStatus = Published then (True, Some d)
                  else (newPublished, newPublishedAt)
              | _ \<Rightarrow> (newPublished, newPublishedAt))
      in existingPost\<lparr>
           title := orElse (u_title data) (title existingPost),
           content := orElse (u_content data) (content existingPost),
           excerpt := orElse (u_excerpt data) (excerpt existingPost),
           author := orElse (u_author data) (author existingPost),
           tags := orElse (u_tags data) (tags existingPost),
           category := orElse (u_category data) (category existingPost),
           updatedAt := now,
           published := newPublished,
           publishedAt := newPublishedAt,
           status := newStatus,
           scheduledPublishAt := orElse (u_scheduledPublishAt data) (scheduledPublishAt existingPost),
           series := (case u_series data of None \<Rightarrow> series existingPost | Some s \<Rightarrow> Some s),
           relatedPosts := (case u_relatedPosts data of None \<Rightarrow> relatedPosts existingPost
                            | Some r \<Rightarrow> Some r)\<rparr>)"

definition updatePost ::
  "int \<Rightarrow> string \<Rightarrow> UpdatePostRequest \<Rightarrow> Post list \<Rightarrow> Post option \<times> Post list" where
  \<comment> \<open>the returned post, or \<open>None\<close> for \<open>null\<close>, and the new store\<close>
  "updatePost now i data store =
     (case findIndex (\<lambda>p. id_p p = i) store of
        None \<Rightarrow> (None, store)
      | Some index \<Rightarrow>
          (let updated = updatedPost now data (store ! index)
           in (Some updated, store[index := updated])))"

fun bulkUpdateLoop ::
  "int \<Rightarrow> string list \<Rightarrow> UpdatePostRequest \<Rightarrow> Post list \<Rightarrow> nat \<times> string list \<times> Post list
     \<Rightarrow> nat \<times> string list \<times> Post list" where
  \<comment> \<open>the loop over the posts read at the start; the state is \<open>(updated, failed, store)\<close>\<close>
  "bulkUpdateLoop now ids updates [] st = st"
| "bulkUpdateLoop now ids updates (p # rest) (updated, failed, store) =
     (if List.member ids (id_p p)
      then (case updatePost now (id_p p) updates store of
              (Some _, store') \<Rightarrow> bulkUpdateLoop now ids updates rest (updated + 1, failed, store')
            | (None, store') \<Rightarrow>
                bulkUpdateLoop now ids updates rest (updated, failed @ [id_p p], store'))
      else bulkUpdateLoop now ids updates rest (updated, failed, store))"

definition bulkUpdatePosts ::
  "int \<Rightarrow> string list \<Rightarrow> UpdatePostRequest \<Rightarrow> Post list \<Rightarrow> nat \<times> string list \<times> Post list" where
  "bulkUpdatePosts now ids updates store = bulkUpdateLoop now ids updates store (0, [], store)"

definition bulkPublishPosts ::
  "int \<Rightarrow> string list \<Rightarrow> bool \<Rightarrow> Post list \<Rightarrow> nat \<times> string list \<times> Post list" where
  "bulkPublishPosts now ids publish store =
     bulkUpdatePosts now ids
       (noUpdate\<lparr>u_published := Some publish,
                 u_status := Some (if publish then Published else Draft)\<rparr>) store"

definition storedTextLE :: "int \<Rightarrow> int \<Rightarrow> bool" where
  \<comment> \<open>\<open>post.scheduledPublishAt <= now\<close> on a stored post: the left side is the ISO text,
      which converts to \<open>NaN\<close>, and no comparison with \<open>NaN\<close> holds\<close>
  "storedTextLE scheduled now = False"

definition dueForPublication :: "int \<Rightarrow> Post \<Rightarrow> bool" where
  "dueForPublication now post \<longleftrightarrow>
     status post = Published \<and> \<not> published post
     \<and> (case scheduledPublishAt post of None \<Rightarrow> False | Some d \<Rightarrow> storedTextLE d now)"

definition publishScheduledPosts :: "int \<Rightarrow> Post list \<Rightarrow> nat \<times> Post list" where
  \<comment> \<open>the count \<open>published\<close> and the new store; \<open>failed\<close> stays empty\<close>
  "publishScheduledPosts now store =
     (length (filter (dueForPublication now) store),
      map (\<lambda>post. if dueForPublication now post
                   then post\<lparr>published := True, publishedAt := scheduledPublishAt post,
                              updatedAt := now\<rparr>
                   else post) store)"

definition publishedHasDate :: "Post \<Rightarrow> bool" where
  \<comment> \<open>\<open>published === true\<close> implies \<open>publishedAt\<close> is not null\<close>
  "publishedHasDate p = (if published p then publishedAt p \<noteq> None else True)"

section \<open>Sample records\<close>

definition sampleNow :: int where
  "sampleNow = 1700000000000"

definition oldPost :: Post where
  \<comment> \<open>published more than 30 days before \<open>sampleNow\<close>, never viewed\<close>
  "oldPost = \<lparr> id_p = ''1'', title = ''Python Basics'', content = ''Introduction to Python'',
     excerpt = ''Hello world'', author = ''John Doe'', published = True,
     publishedAt = Some 1600000000000, createdAt = 1600000000000, updatedAt = 1600000000000,
     tags = [''python'', ''programming''], category = ''Tech'', status = Published,
     scheduledPublishAt = None, viewCount = 0, likeCount = 0, commentCount = 0,
     series = None, relatedPosts = Some [] \<rparr>"

definition recentPost :: Post where
  \<comment> \<open>the same record, published one day before \<open>sampleNow\<close>\<close>
  "recentPost = oldPost\<lparr>publishedAt := Some 1699913600000, createdAt := 1699913600000,
     updatedAt := 1699913600000\<rparr>"

definition draftPost :: Post where
  "draftPost = oldPost\<lparr>published := False, publishedAt := None, status := Draft\<rparr>"

definition reactPost :: Post where
  \<comment> \<open>created after \<open>oldPost\<close>, still more than 30 days before \<open>sampleNow\<close>\<close>
  "reactPost = oldPost\<lparr>id_p := ''2'', title := ''React Guide'', content := ''Master React development'',
     excerpt := ''Components and hooks'', author := ''Jane Smith'', tags := [''react'', ''javascript''],
     publishedAt := Some 1650000000000, createdAt := 1650000000000, updatedAt := 1650000000000\<rparr>"

definition postA :: Post where
  \<comment> \<open>the reference record of the recommendation samples, with two curated relations\<close>
  "postA = oldPost\<lparr>id_p := ''a'', relatedPosts := Some [''b'', ''c'']\<rparr>"

definition postB :: Post where
  "postB = oldPost\<lparr>id_p := ''b'', title := ''Bread at home'', category := ''Cooking'',
     author := ''Jane Smith'', tags := [''recipes'']\<rparr>"

definition postC :: Post where
  "postC = oldPost\<lparr>id_p := ''c'', title := ''Python Advanced''\<rparr>"

definition viewedPost :: Post where
  "viewedPost = reactPost\<lparr>viewCount := 7\<rparr>"

definition tieX :: Post where
  \<comment> \<open>created before \<open>tieY\<close>, published after it\<close>
  "tieX = oldPost\<lparr>id_p := ''x'', publishedAt := Some 1650000000000\<rparr>"

definition tieY :: Post where
  "tieY = oldPost\<lparr>id_p := ''y'', createdAt := 1610000000000, publishedAt := Some 1620000000000\<rparr>"

definition zetaA :: Post where
  \<comment> \<open>the token \<open>zeta\<close> twice in the body, 303 views, the newer of the two\<close>
  "zetaA = oldPost\<lparr>id_p := ''za'', content := ''zeta zeta'', viewCount := 303,
     publishedAt := Some 1650000000000\<rparr>"

definition zetaB :: Post where
  \<comment> \<open>the token \<open>zeta\<close> once in the body, 403 views\<close>
  "zetaB = oldPost\<lparr>id_p := ''zb'', content := ''zeta'', viewCount := 403\<rparr>"

definition cppPost :: Post where
  "cppPost = oldPost\<lparr>excerpt := ''Learn C++ today''\<rparr>"

definition literalEngine :: regexp_engine where
  \<comment> \<open>an engine for the sample runs; they use literal or invalid patterns only\<close>
  "literalEngine t s = Inr (countLiteral t s)"

section \<open>The orders that the claims name\<close>

text \<open>
  These two definitions follow the words of the claims, not the code: they name the record
  fields themselves, and the theorems compare the code with them.
\<close>

definition requestedSortKey :: "PostFilters \<Rightarrow> Post \<Rightarrow> int" where
  \<comment> \<open>the value of the requested sort field, the creation time when none is requested;
      negated unless the requested direction is ascending, so that ascending keys give the
      requested order\<close>
  "requestedSortKey filters p =
     (let v = (case f_sortBy filters of
                 None \<Rightarrow> createdAt p
               | Some ByCreatedAt \<Rightarrow> createdAt p
               | Some ByUpdatedAt \<Rightarrow> updatedAt p
               | Some ByPublishedAt \<Rightarrow> (case publishedAt p of None \<Rightarrow> createdAt p | Some d \<Rightarrow> d)
               | Some ByViewCount \<Rightarrow> viewCount p
               | Some ByLikeCount \<Rightarrow> likeCount p)
      in case f_sortOrder filters of Some Asc \<Rightarrow> v | _ \<Rightarrow> - v)"

definition ranksBefore :: "regexp_engine \<Rightarrow> int \<Rightarrow> string list \<Rightarrow> Post \<Rightarrow> Post \<Rightarrow> bool" where
  \<comment> \<open>\<open>a\<close> may stand before \<open>b\<close>: a higher total score, or the same score and a date
      (\<open>publishedAt\<close> if set, else \<open>createdAt\<close>) that is not older\<close>
  "ranksBefore eng now terms a b =
     (case (scorePost eng now terms a, scorePost eng now terms b) of
        (Inr sa, Inr sb) \<Rightarrow>
          sb < sa
          \<or> (sa = sb
              \<and> (case publishedAt b of None \<Rightarrow> createdAt b | Some d \<Rightarrow> d)
                  \<le> (case publishedAt a of None \<Rightarrow> createdAt a | Some d \<Rightarrow> d))
      | _ \<Rightarrow> False)"

section \<open>Facts about slicing, sorting and filtering\<close>

lemma set_js_slice: "set (js_slice a b xs) \<subseteq> set xs"
  unfolding js_slice_def Let_def
  by (meson set_take_subset set_drop_subset subset_trans)

lemma js_slice_from_zero: "0 \<le> l \<Longrightarrow> js_slice 0 l xs = take (nat l) xs"
  by (simp add: js_slice_def Let_def min_def)

lemma length_js_slice_from_zero: "0 \<le> l \<Longrightarrow> int (length (js_slice 0 l xs)) \<le> l"
  by (simp add: js_slice_from_zero)

lemma js_slice_page:
  assumes "0 \<le> off" "0 \<le> l"
  shows "js_slice off (off + l) xs = take (nat l) (drop (nat off) xs)"
proof (cases "off \<le> int (length xs)")
  case True
  with assms have "nat (min (off + l) (int (length xs)) - off) = min (nat l) (length xs - nat off)"
    by (simp add: min_def) linarith
  with assms True show ?thesis
    by (simp add: js_slice_def Let_def min_def)
next
  case False
  with assms show ?thesis
    by (simp add: js_slice_def Let_def min_def)
qed

lemma sorted_wrt_js_slice: "sorted_wrt P xs \<Longrightarrow> sorted_wrt P (js_slice a b xs)"
  unfolding js_slice_def Let_def
  by (intro sorted_wrt_take sorted_wrt_drop)

lemma set_sortPosts: "set (sortPosts filters posts) = set posts"
  by (simp add: sortPosts_def)

lemma set_paginate: "set (paginate filters posts) \<subseteq> set posts"
  by (simp add: paginate_def Let_def set_js_slice)

lemma set_getPosts: "set (getPosts filters store) \<subseteq> {p \<in> set store. keep filters p}"
  unfolding getPosts_def
  using set_paginate [of filters "sortPosts filters (filter (keep filters) store)"]
  by (auto simp: set_sortPosts)

lemma requestedSortKey_sortValue:
  "requestedSortKey filters =
     (if f_sortOrder filters = Some Asc then sortValue (f_sortBy filters)
      else (\<lambda>p. - sortValue (f_sortBy filters) p))"
proof (rule ext)
  fix p
  have v: "(case f_sortBy filters of
           None \<Rightarrow> createdAt p
         | Some ByCreatedAt \<Rightarrow> createdAt p
         | Some ByUpdatedAt \<Rightarrow> updatedAt p
         | Some ByPublishedAt \<Rightarrow> (case publishedAt p of None \<Rightarrow> createdAt p | Some d \<Rightarrow> d)
         | Some ByViewCount \<Rightarrow> viewCount p
         | Some ByLikeCount \<Rightarrow> likeCount p) = sortValue (f_sortBy filters) p"
    by (simp add: sortValue_def effectiveDate_def split: option.splits SortField.splits)
  have r: "requestedSortKey filters p =
      (case f_sortOrder filters of Some Asc \<Rightarrow> sortValue (f_sortBy filters) p
       | _ \<Rightarrow> - sortValue (f_sortBy filters) p)"
    unfolding requestedSortKey_def Let_def v by (rule refl)
  show "requestedSortKey filters p =
     (if f_sortOrder filters = Some Asc then sortValue (f_sortBy filters)
      else (\<lambda>p. - sortValue (f_sortBy filters) p)) p"
  proof (cases "f_sortOrder filters")
    case None
    then show ?thesis by (simp add: r)
  next
    case (Some order)
    then show ?thesis by (cases order) (simp_all add: r)
  qed
qed

lemma sortPosts_requested: "sortPosts filters posts = sort_key (requestedSortKey filters) posts"
  by (simp add: sortPosts_def requestedSortKey_sortValue)

lemma sorted_getPosts_requested:
  "sorted_wrt (\<lambda>a b. requestedSortKey filters a \<le> requestedSortKey filters b)
     (getPosts filters store)"
proof -
  have "sorted (map (requestedSortKey filters)
          (sort_key (requestedSortKey filters) (filter (keep filters) store)))"
    by (rule sorted_sort_key)
  then have "sorted_wrt (\<lambda>a b. requestedSortKey filters a \<le> requestedSortKey filters b)
               (sortPosts filters (filter (keep filters) store))"
    by (simp only: sorted_map sortPosts_requested)
  then show ?thesis
    by (simp add: getPosts_def paginate_def Let_def sorted_wrt_js_slice)
qed

section \<open>Facts about query tokens\<close>

lemma isWhiteSpace_toLowerChar: "isWhiteSpace (toLowerChar c) = isWhiteSpace c"
proof -
  let ?n = "of_char c :: nat"
  have lt: "?n < 256" by simp
  show ?thesis
  proof (cases "(65 \<le> ?n \<and> ?n \<le> 90) \<or> (192 \<le> ?n \<and> ?n \<le> 222 \<and> ?n \<noteq> 215)")
    case True
    then have "?n + 32 < 256" by auto
    then have "(of_char (char_of (?n + 32)) :: nat) = ?n + 32"
      by (simp add: of_char_of)
    with True show ?thesis
      by (auto simp: isWhiteSpace_def toLowerChar_def Let_def)
  next
    case False
    then have "toLowerChar c = c" unfolding toLowerChar_def Let_def by (simp only: if_False)
    then show ?thesis by simp
  qed
qed

lemma all_ws_toLowerCase: "list_all isWhiteSpace (toLowerCase s) = list_all isWhiteSpace s"
  by (induction s) (simp_all add: toLowerCase_def isWhiteSpace_toLowerChar)

lemma dropWhile_all_iff: "(\<forall>x \<in> set (dropWhile P xs). P x) \<longleftrightarrow> (\<forall>x \<in> set xs. P x)"
proof
  assume all: "\<forall>x \<in> set (dropWhile P xs). P x"
  have "dropWhile P xs = []"
  proof (rule ccontr)
    assume ne: "dropWhile P xs \<noteq> []"
    then have "\<not> P (hd (dropWhile P xs))" by (rule hd_dropWhile)
    moreover have "hd (dropWhile P xs) \<in> set (dropWhile P xs)" using ne by (rule hd_in_set)
    ultimately show False using all by blast
  qed
  then show "\<forall>x \<in> set xs. P x" by (simp only: dropWhile_eq_Nil_conv)
next
  assume "\<forall>x \<in> set xs. P x"
  then show "\<forall>x \<in> set (dropWhile P xs). P x" by (blast dest: set_dropWhileD)
qed

lemma trim_Nil_iff: "trim s = [] \<longleftrightarrow> list_all isWhiteSpace s"
  by (simp add: trim_def dropWhile_all_iff list_all_iff)

lemma splitFrom_has_piece: "acc \<noteq> [] \<Longrightarrow> \<exists>piece \<in> set (splitFrom acc s). piece \<noteq> []"
  by (induction acc s rule: splitFrom.induct) auto

lemma trim_hd: "trim s \<noteq> [] \<Longrightarrow> \<not> isWhiteSpace (hd (trim s))"
proof -
  assume ne: "trim s \<noteq> []"
  let ?d = "dropWhile isWhiteSpace s"
  have d: "?d \<noteq> []"
  proof
    assume e: "?d = []"
    have "trim s = []" unfolding trim_def e by simp
    with ne show False by simp
  qed
  then have h: "\<not> isWhiteSpace (hd ?d)" by (rule hd_dropWhile)
  obtain c cs where dc: "?d = c # cs" using d by (cases ?d) auto
  with h have c: "\<not> isWhiteSpace c" by simp
  have "rev ?d = rev cs @ [c]" using dc by simp
  then have "dropWhile isWhiteSpace (rev ?d) = dropWhile isWhiteSpace (rev cs) @ [c]"
    using c by (simp add: dropWhile_append)
  then have "trim s = c # rev (dropWhile isWhiteSpace (rev cs))"
    by (simp add: trim_def)
  with c show ?thesis by simp
qed

lemma searchTerms_Nil_iff: "searchTerms query = [] \<longleftrightarrow> list_all isWhiteSpace query"
proof
  assume "list_all isWhiteSpace query"
  then have "trim (toLowerCase query) = []"
    by (simp add: trim_Nil_iff all_ws_toLowerCase)
  then show "searchTerms query = []"
    by (simp add: searchTerms_def splitWhitespace_def)
next
  assume none: "searchTerms query = []"
  show "list_all isWhiteSpace query"
  proof (rule ccontr)
    assume "\<not> list_all isWhiteSpace query"
    then have ne: "trim (toLowerCase query) \<noteq> []"
      by (simp add: trim_Nil_iff all_ws_toLowerCase)
    then obtain c cs where t: "trim (toLowerCase query) = c # cs"
      by (cases "trim (toLowerCase query)") auto
    with trim_hd [OF ne] have "\<not> isWhiteSpace c" by simp
    then have "splitFrom [] (c # cs) = splitFrom [c] cs" by simp
    moreover have "\<exists>piece \<in> set (splitFrom [c] cs). piece \<noteq> []"
      by (rule splitFrom_has_piece) simp
    ultimately have "searchTerms query \<noteq> []"
      by (auto simp: searchTerms_def splitWhitespace_def t filter_empty_conv)
    with none show False by simp
  qed
qed

lemma trim_query_Nil: "trim query = [] \<Longrightarrow> searchTerms query = []"
  by (simp add: searchTerms_Nil_iff trim_Nil_iff)

section \<open>Facts about scoring and ranking\<close>

lemma scoredPosts_items:
  "scoredPosts eng now terms posts = Inr scored \<Longrightarrow>
   map fst scored = posts \<and> (\<forall>item \<in> set scored. scorePost eng now terms (fst item) = Inr (snd item))"
proof (induction posts arbitrary: scored)
  case Nil
  then show ?case by simp
next
  case (Cons p ps)
  then show ?case by (auto split: sum.splits)
qed

lemma set_relevantPosts: "set (relevantPosts scored) \<subseteq> fst ` set scored"
  by (auto simp: relevantPosts_def)

lemma relevantPosts_positive:
  "p \<in> set (relevantPosts scored) \<Longrightarrow> \<exists>s. (p, s) \<in> set scored \<and> 0 < s"
  by (auto simp: relevantPosts_def)

lemma sorted_relevantPosts:
  assumes "\<forall>item \<in> set scored. scorePost eng now terms (fst item) = Inr (snd item)"
  shows "sorted_wrt (ranksBefore eng now terms) (relevantPosts scored)"
proof -
  let ?k = "\<lambda>item :: Post \<times> rat. (- snd item, - effectiveDate (fst item))"
  let ?ys = "sort_key ?k (filter (\<lambda>item. snd item > 0) scored)"
  have "sorted (map ?k ?ys)" by (rule sorted_sort_key)
  then have "sorted_wrt (\<lambda>x y. ?k x \<le> ?k y) ?ys" by (simp only: sorted_map)
  moreover have "\<And>x y. x \<in> set ?ys \<Longrightarrow> y \<in> set ?ys \<Longrightarrow> ?k x \<le> ?k y \<Longrightarrow>
      ranksBefore eng now terms (fst x) (fst y)"
  proof -
    fix x y assume "x \<in> set ?ys" "y \<in> set ?ys" and le: "?k x \<le> ?k y"
    then have "scorePost eng now terms (fst x) = Inr (snd x)" "scorePost eng now terms (fst y) = Inr (snd y)"
      using assms by auto
    with le show "ranksBefore eng now terms (fst x) (fst y)"
      by (auto simp: ranksBefore_def effectiveDate_def split: option.splits)
  qed
  ultimately have "sorted_wrt (\<lambda>x y. ranksBefore eng now terms (fst x) (fst y)) ?ys"
    by (rule sorted_wrt_mono_rel [rotated])
  then show ?thesis by (simp add: relevantPosts_def sorted_wrt_map)
qed

lemma set_applyLimit: "set (applyLimit l xs) \<subseteq> set xs"
  by (auto simp: applyLimit_def split: option.splits dest: subsetD [OF set_js_slice])

lemma sorted_applyLimit: "sorted_wrt P xs \<Longrightarrow> sorted_wrt P (applyLimit l xs)"
  by (simp add: applyLimit_def sorted_wrt_js_slice split: option.splits)

lemma searchPosts_nonempty:
  assumes "searchTerms query \<noteq> []"
  shows "searchPosts eng now query filters store =
     (case scoredPosts eng now (searchTerms query) (getPosts (filters\<lparr>f_search := None\<rparr>) store) of
        Inl e \<Rightarrow> Inl e
      | Inr scored \<Rightarrow> Inr (applyLimit (f_limit filters) (relevantPosts scored)))"
proof -
  from assms have "trim query \<noteq> []" using trim_query_Nil by blast
  moreover from this have "query \<noteq> []" by (auto simp: trim_def)
  ultimately show ?thesis using assms by (simp add: searchPosts_def Let_def)
qed

lemma length_relevantPosts: "length (relevantPosts scored) \<le> length scored"
  by (simp add: relevantPosts_def)

lemma second_cut_positive_limit:
  assumes "0 < l" and "length page \<le> nat l"
      and "scoredPosts eng now terms page = Inr scored"
  shows "js_slice 0 l (relevantPosts scored) = relevantPosts scored"
proof -
  from scoredPosts_items [OF assms(3)] have "length scored = length page"
    by (metis length_map)
  with assms(2) length_relevantPosts [of scored]
  have "length (relevantPosts scored) \<le> nat l" by linarith
  with assms(1) show ?thesis by (simp add: js_slice_from_zero)
qed

lemma getPosts_requested:
  "getPosts filters store =
     (let sorted = sort_key (requestedSortKey filters) (filter (keep filters) store);
          off = (case f_offset filters of None \<Rightarrow> 0 | Some v \<Rightarrow> v);
          lim = (case f_limit filters of None \<Rightarrow> int (length sorted)
                 | Some l \<Rightarrow> if l = 0 then int (length sorted) else l)
      in js_slice off (off + lim) sorted)"
  by (simp add: getPosts_def paginate_def Let_def sortPosts_requested)

lemma requestedSortKey_search:
  "requestedSortKey (filters\<lparr>f_search := s\<rparr>) = requestedSortKey filters"
  by (rule ext) (simp add: requestedSortKey_def)

lemma effectiveDate_viewCount: "effectiveDate (post\<lparr>viewCount := v\<rparr>) = effectiveDate post"
  by (simp add: effectiveDate_def split: option.splits)

lemma termScore_viewCount:
  "termScore eng (post\<lparr>viewCount := v\<rparr>) term score = termScore eng post term score"
  by (simp add: termScore_def split: sum.splits)

lemma termsScore_viewCount:
  "termsScore eng (post\<lparr>viewCount := v\<rparr>) terms score = termsScore eng post terms score"
  by (induction terms arbitrary: score) (simp_all add: termScore_viewCount split: sum.splits)

lemma recencyBonus_viewCount:
  "recencyBonus now (post\<lparr>viewCount := v\<rparr>) score = recencyBonus now post score"
  by (simp add: recencyBonus_def daysSincePublished_def effectiveDate_viewCount)

lemma termScore_literal:
  assumes "literalPattern term"
  shows "\<exists>s. termScore eng post term score = Inr s"
proof -
  have mc: "matchCount eng term s = Inr (countLiteral term s)" for s
    using assms by (simp add: matchCount_def)
  have ex: "\<exists>s'. excerptScore eng (toLowerCase (excerpt post)) term s = Inr s'" for s
    by (cases "js_includes (toLowerCase (excerpt post)) term") (simp_all add: excerptScore_def mc)
  have co: "\<exists>s'. contentScore eng (toLowerCase (content post)) term s = Inr s'" for s
    by (cases "js_includes (toLowerCase (content post)) term") (simp_all add: contentScore_def mc)
  obtain s1 where "excerptScore eng (toLowerCase (excerpt post)) term
      (authorScore (toLowerCase (author post)) term
        (categoryScore (toLowerCase (category post)) term
          (tagScore (map toLowerCase (tags post)) term
            (titleScore (toLowerCase (title post)) term score)))) = Inr s1"
    using ex by blast
  moreover obtain s2 where "contentScore eng (toLowerCase (content post)) term s1 = Inr s2"
    using co by blast
  ultimately show ?thesis by (simp add: termScore_def Let_def)
qed

lemma termsScore_literal:
  "list_all literalPattern terms \<Longrightarrow> \<exists>s. termsScore eng post terms score = Inr s"
proof (induction terms arbitrary: score)
  case Nil
  then show ?case by simp
next
  case (Cons t ts)
  then obtain s where "termScore eng post t score = Inr s"
    using termScore_literal [of t eng post score] by auto
  with Cons show ?case by simp
qed

lemma scoredPosts_literal:
  "list_all literalPattern terms \<Longrightarrow> \<exists>scored. scoredPosts eng now terms posts = Inr scored"
proof (induction posts)
  case Nil
  then show ?case by simp
next
  case (Cons p ps)
  from termsScore_literal [OF Cons.prems, of eng p 0]
  obtain s where s: "scorePost eng now terms p = Inr s"
    by (auto simp: scorePost_def)
  from Cons obtain rest where "scoredPosts eng now terms ps = Inr rest" by blast
  with s show ?case by simp
qed

lemma searchPosts_literal_returns:
  assumes "list_all literalPattern (searchTerms query)"
  shows "\<exists>result. searchPosts eng now query filters store = Inr result"
proof -
  from scoredPosts_literal [OF assms]
  obtain scored where
    "scoredPosts eng now (searchTerms query) (getPosts (filters\<lparr>f_search := None\<rparr>) store) = Inr scored"
    by blast
  then show ?thesis by (simp add: searchPosts_def Let_def)
qed

lemma countLiteral_positive:
  "t \<noteq> [] \<Longrightarrow> js_includes s t \<Longrightarrow> 0 < countLiteral t s"
  by (induction s) auto

lemma excerptScore_literal:
  assumes "literalPattern term" and "js_includes excerptLower term"
  shows "excerptScore eng excerptLower term score
       = Inr (js_add (js_add score 10) (js_mul (of_nat (countLiteral term excerptLower)) 2))"
  using assms by (simp add: excerptScore_def matchCount_def)

section \<open>Facts about getRelatedPosts\<close>

lemma getPosts_excludes:
  assumes "p \<in> set (getPosts filters store)" and "f_excludeIds filters = Some [postId]"
  shows "id_p p \<noteq> postId"
proof -
  from assms(1) have "keep filters p" using set_getPosts by blast
  with assms(2) show ?thesis by (simp add: keep_def)
qed

lemma set_automaticRelated:
  "set (automaticRelated now store post postId limit)
     \<subseteq> set (getPosts ((publishedExcept postId)\<lparr>f_limit := Some (limit * 3)\<rparr>) store)"
proof -
  have "set (map fst (js_slice 0 limit (sort_key k (map (\<lambda>r. (r, g r)) xs)))) \<subseteq> set xs"
    for k :: "Post \<times> rat \<Rightarrow> rat" and g xs
  proof -
    have "set (js_slice 0 limit (sort_key k (map (\<lambda>r. (r, g r)) xs))) \<subseteq> set (map (\<lambda>r. (r, g r)) xs)"
      using set_js_slice [of 0 limit "sort_key k (map (\<lambda>r. (r, g r)) xs)"] by simp
    then show ?thesis by auto
  qed
  then show ?thesis by (simp add: automaticRelated_def Let_def)
qed

lemma length_automaticRelated:
  "0 \<le> limit \<Longrightarrow> int (length (automaticRelated now store post postId limit)) \<le> limit"
  by (simp add: automaticRelated_def Let_def js_slice_from_zero)

lemma automaticRelated_not_self:
  assumes "p \<in> set (automaticRelated now store post postId limit)"
  shows "id_p p \<noteq> postId"
proof -
  from assms have "p \<in> set (getPosts ((publishedExcept postId)\<lparr>f_limit := Some (limit * 3)\<rparr>) store)"
    using set_automaticRelated by blast
  then show ?thesis by (rule getPosts_excludes) (simp add: publishedExcept_def)
qed

lemma manualRelated_not_self:
  assumes "p \<in> set (manualRelated store postId valid limit)"
  shows "id_p p \<noteq> postId"
proof -
  let ?xs = "filter (\<lambda>p. List.member valid (id_p p)) (getPosts (publishedExcept postId) store)"
  from assms have "p \<in> set ?xs"
    using set_js_slice [of 0 limit ?xs] unfolding manualRelated_def by blast
  then have "p \<in> set (getPosts (publishedExcept postId) store)" by simp
  then show ?thesis by (rule getPosts_excludes) (simp add: publishedExcept_def)
qed

lemma length_manualRelated:
  "0 \<le> limit \<Longrightarrow> int (length (manualRelated store postId valid limit)) \<le> limit"
  by (simp add: manualRelated_def js_slice_from_zero)

lemma getRelatedPosts_cases:
  assumes "getPostById store postId = Some post"
  shows "getRelatedPosts now store postId limit = automaticRelated now store post postId limit
       \<or> (\<exists>valid. getRelatedPosts now store postId limit = manualRelated store postId valid limit)
       \<or> (\<exists>valid. int (length (manualRelated store postId valid limit)) < limit
            \<and> getRelatedPosts now store postId limit
              = automaticRelated now store post postId
                  (limit - int (length (manualRelated store postId valid limit))))"
proof -
  let ?auto = "\<lambda>l. automaticRelated now store post postId l"
  show ?thesis
  proof (cases "relatedPosts post")
    case None
    with assms show ?thesis by (simp add: getRelatedPosts_def)
  next
    case (Some rel)
    let ?valid = "fst (validateRelatedPosts store rel)"
    let ?filtered = "manualRelated store postId ?valid limit"
    show ?thesis
    proof (cases "rel \<noteq> [] \<and> ?valid \<noteq> []")
      case False
      with assms Some have "getRelatedPosts now store postId limit = ?auto limit"
        by (auto simp: getRelatedPosts_def Let_def)
      then show ?thesis by simp
    next
      case True
      show ?thesis
      proof (cases "limit \<le> int (length ?filtered)")
        case le: True
        with assms Some True have "getRelatedPosts now store postId limit = ?filtered"
          by (simp add: getRelatedPosts_def Let_def)
        then show ?thesis by blast
      next
        case gt: False
        with assms Some True
        have "getRelatedPosts now store postId limit = ?auto (limit - int (length ?filtered))"
          by (simp add: getRelatedPosts_def Let_def)
        moreover from gt have "int (length ?filtered) < limit" by simp
        ultimately show ?thesis by blast
      qed
    qed
  qed
qed

section \<open>Facts about the publication state\<close>

text \<open>
  createPost, bulkPublishPosts and publishScheduledPosts keep \<open>publishedHasDate\<close> on every
  record of the store, and so does updatePost whenever the request sets the status to
  \<open>published\<close>. publishScheduledPosts changes no stored record at all, since its date test
  never holds on what \<open>readPosts()\<close> returns.
\<close>

lemma published_updatedPost:
  "published (updatedPost now data p) =
     (if orElse (u_status data) (status p) = Published then True
      else orElse (u_published data) (published p))"
  by (simp add: updatedPost_def Let_def split_beta split: option.splits)

lemma publishedAt_updatedPost:
  "orElse (u_status data) (status p) = Published \<Longrightarrow> publishedAt (updatedPost now data p) \<noteq> None"
  by (simp add: updatedPost_def Let_def split_beta split: option.splits)

lemma updatedPost_publish:
  "u_status data = Some Published \<Longrightarrow> publishedHasDate (updatedPost now data p)"
  using publishedAt_updatedPost [of data p now]
  by (simp add: publishedHasDate_def orElse_def)

lemma updatedPost_unpublish:
  "u_status data = Some Draft \<Longrightarrow> u_published data = Some False \<Longrightarrow> publishedHasDate (updatedPost now data p)"
  by (simp add: publishedHasDate_def published_updatedPost orElse_def)

lemma createPost_publishedHasDate: "publishedHasDate (fst (createPost now newId data store))"
  by (simp add: createPost_def Let_def publishedHasDate_def)

lemma createPost_store:
  "list_all publishedHasDate store \<Longrightarrow> list_all publishedHasDate (snd (createPost now newId data store))"
  using createPost_publishedHasDate [of now newId data store]
  by (simp add: createPost_def Let_def)

lemma publishScheduledPosts_unchanged: "publishScheduledPosts now store = (0, store)"
  by (simp add: publishScheduledPosts_def dueForPublication_def storedTextLE_def
        map_idI split: option.splits)

lemma publishScheduledPosts_store:
  "list_all publishedHasDate store \<Longrightarrow>
   list_all publishedHasDate (snd (publishScheduledPosts now store))"
  by (simp add: publishScheduledPosts_unchanged)

lemma findIndex_less: "findIndex P xs = Some i \<Longrightarrow> i < length xs"
  by (induction xs arbitrary: i) (auto split: if_splits)

lemma updatePost_store:
  assumes "list_all publishedHasDate store" and "\<And>p. publishedHasDate (updatedPost now data p)"
  shows "list_all publishedHasDate (snd (updatePost now i data store))"
proof (cases "findIndex (\<lambda>p. id_p p = i) store")
  case None
  with assms(1) show ?thesis by (simp add: updatePost_def)
next
  case (Some index)
  have "set (store[index := updatedPost now data (store ! index)])
      \<subseteq> insert (updatedPost now data (store ! index)) (set store)"
    by (rule set_update_subset_insert)
  with assms have "list_all publishedHasDate (store[index := updatedPost now data (store ! index)])"
    unfolding list_all_iff by blast
  with Some show ?thesis by (simp add: updatePost_def Let_def)
qed

lemma bulkUpdateLoop_store:
  assumes "\<And>p. publishedHasDate (updatedPost now data p)"
  shows "list_all publishedHasDate store \<Longrightarrow>
         list_all publishedHasDate (snd (snd (bulkUpdateLoop now ids data posts (n, failed, store))))"
proof (induction posts arbitrary: n failed store)
  case Nil
  then show ?case by simp
next
  case (Cons p rest)
  have "list_all publishedHasDate (snd (updatePost now (id_p p) data store))"
    using Cons.prems assms by (rule updatePost_store)
  then show ?case using Cons
    by (cases "updatePost now (id_p p) data store") (auto split: option.splits)
qed

lemma bulkPublishPosts_store:
  assumes "list_all publishedHasDate store"
  shows "list_all publishedHasDate (snd (snd (bulkPublishPosts now ids publish store)))"
proof -
  let ?data = "noUpdate\<lparr>u_published := Some publish, u_status := Some (if publish then Published else Draft)\<rparr>"
  have "publishedHasDate (updatedPost now ?data p)" for p
    by (cases publish) (simp_all add: updatedPost_publish updatedPost_unpublish)
  then show ?thesis
    using assms unfolding bulkPublishPosts_def bulkUpdatePosts_def
    by (intro bulkUpdateLoop_store) 
qed

section \<open>The related-content recommender\<close>

text \<open>
  C1. When the curated \<open>relatedPosts\<close> of a reference record give fewer valid, published,
  non-self matches than \<open>limit\<close>, the claim says that getRelatedPosts returns those matches
  followed by the automatic results that fill the remainder. The code lowers \<open>limit\<close> by the
  number of curated matches and then returns the automatic results alone. Here the record
  \<open>a\<close> has the curated relations \<open>b\<close> and \<open>c\<close>, both valid and published, and \<open>limit\<close> is 3:
  the list \<open>filtered\<close> is \<open>[b, c]\<close>, and the result is \<open>[c]\<close>, without \<open>b\<close>.
\<close>

theorem getRelatedPosts_loses_curated:
  "manualRelated [postA, postB, postC] ''a'' (fst (validateRelatedPosts [postA, postB, postC] [''b'', ''c''])) 3
     = [postB, postC]
   \<and> getRelatedPosts sampleNow [postA, postB, postC] ''a'' 3 = [postC]"
  by code_simp

text \<open>
  C10. For every reference id, every collection and every limit, a count of records and
  so not negative, the result of getRelatedPosts never contains the reference record and
  its length never exceeds \<open>limit\<close>; when the reference id is not in the collection the
  result is empty.
\<close>

theorem getRelatedPosts_bounds:
  assumes "0 \<le> limit"
  shows "int (length (getRelatedPosts now store postId limit)) \<le> limit
       \<and> (\<forall>p \<in> set (getRelatedPosts now store postId limit). id_p p \<noteq> postId)
       \<and> (getPostById store postId = None \<longrightarrow> getRelatedPosts now store postId limit = [])"
proof (cases "getPostById store postId")
  case None
  with assms show ?thesis by (simp add: getRelatedPosts_def)
next
  case (Some post)
  let ?res = "getRelatedPosts now store postId limit"
  from getRelatedPosts_cases [OF Some, of now limit]
  consider (auto) "?res = automaticRelated now store post postId limit"
    | (manual) valid where "?res = manualRelated store postId valid limit"
    | (both) valid where "int (length (manualRelated store postId valid limit)) < limit"
        "?res = automaticRelated now store post postId
                  (limit - int (length (manualRelated store postId valid limit)))"
    by blast
  then have "int (length ?res) \<le> limit \<and> (\<forall>p \<in> set ?res. id_p p \<noteq> postId)"
  proof cases
    case auto
    then show ?thesis
      using length_automaticRelated [OF assms] automaticRelated_not_self by metis
  next
    case manual
    then show ?thesis
      using length_manualRelated [OF assms] manualRelated_not_self by metis
  next
    case both
    let ?l = "limit - int (length (manualRelated store postId valid limit))"
    from both(1) have "0 \<le> ?l" by simp
    then have "int (length (automaticRelated now store post postId ?l)) \<le> ?l"
      by (rule length_automaticRelated)
    then have "int (length ?res) \<le> limit" unfolding both(2) by linarith
    then show ?thesis using automaticRelated_not_self unfolding both(2) by blast
  qed
  with Some show ?thesis by simp
qed

theorem getRelatedPosts_bounds_witness:
  "(0 :: int) \<le> 3
   \<and> int (length (getRelatedPosts sampleNow [postA, postB, postC] ''a'' 3)) \<le> 3
   \<and> list_all (\<lambda>p. id_p p \<noteq> ''a'') (getRelatedPosts sampleNow [postA, postB, postC] ''a'' 3)
   \<and> getRelatedPosts sampleNow [postA, postB, postC] ''zz'' 3 = []"
proof -
  have h: "(0 :: int) \<le> 3" by simp
  have none: "getPostById [postA, postB, postC] ''zz'' = None" by code_simp
  from getRelatedPosts_bounds [OF h, of sampleNow "[postA, postB, postC]" "''a''"]
       getRelatedPosts_bounds [OF h, of sampleNow "[postA, postB, postC]" "''zz''"] none
  show ?thesis unfolding list_all_iff by simp
qed

section \<open>Scoring in searchPosts\<close>

text \<open>
  C2. The claim: the popularity bonus that searchPosts adds once per record is
  \<open>min(viewCount / 100, 5)\<close> for every view count that is not negative, with no minimum
  number of views. The code adds the bonus under the guard \<open>viewCount > 100\<close>: a record
  with 50 views has the score 12 of the same record without views, not the score with
  \<open>min(50 / 100, 5)\<close> added.
\<close>

theorem popularity_bonus_counterexample:
  "scorePost literalEngine sampleNow (searchTerms ''hello'') (oldPost\<lparr>viewCount := 50\<rparr>)
     = scorePost literalEngine sampleNow (searchTerms ''hello'') (oldPost\<lparr>viewCount := 0\<rparr>)
   \<and> scorePost literalEngine sampleNow (searchTerms ''hello'') (oldPost\<lparr>viewCount := 0\<rparr>) = Inr 12
   \<and> js_add 12 (min (js_div (of_int (viewCount (oldPost\<lparr>viewCount := 50\<rparr>))) 100) 5) = 25 / 2"
  by code_simp

text \<open>
  C2, amended: the popularity bonus added once per record is \<open>min(viewCount / 100, 5)\<close>
  when the view count is above 100, and nothing otherwise: the score of a record is the
  score of the same record without views, with that bonus added when there is one.
\<close>

theorem popularity_bonus_above_100:
  assumes "scorePost eng now terms (post\<lparr>viewCount := 0\<rparr>) = Inr base"
  shows "scorePost eng now terms post
       = Inr (if 100 < viewCount post
              then js_add base (min (js_div (of_int (viewCount post)) 100) 5)
              else base)"
proof -
  from assms obtain s where s: "termsScore eng post terms 0 = Inr s"
    and base: "base = recencyBonus now post s"
    by (auto simp: scorePost_def termsScore_viewCount recencyBonus_viewCount popularityBonus_def
          split: sum.splits)
  then show ?thesis by (simp add: scorePost_def popularityBonus_def)
qed

theorem popularity_bonus_above_100_witness:
  "scorePost literalEngine sampleNow (searchTerms ''hello'') (oldPost\<lparr>viewCount := 250, viewCount := 0\<rparr>)
     = Inr 12
   \<and> scorePost literalEngine sampleNow (searchTerms ''hello'') (oldPost\<lparr>viewCount := 250\<rparr>)
     = Inr (29 / 2)"
proof -
  have h: "scorePost literalEngine sampleNow (searchTerms ''hello'')
             (oldPost\<lparr>viewCount := 250, viewCount := 0\<rparr>) = Inr 12"
    by code_simp
  have b: "js_add 12 (min (js_div (of_int 250) 100) 5) = 29 / 2" by code_simp
  from popularity_bonus_above_100 [OF h] h b show ?thesis by simp
qed

text \<open>
  C3. The claim: when the lowercased excerpt contains the token, the excerpt signal adds
  \<open>10 + 2 \<times> (occurrence count - 1)\<close>, so 10 points for a single occurrence. The code adds
  10 and then 2 for every match, the first included: the excerpt \<open>Hello world\<close> contains the
  token \<open>hello\<close> once and the signal takes the score from 0 to 12.
\<close>

theorem excerptScore_single_occurrence:
  "countLiteral ''hello'' (toLowerCase (excerpt oldPost)) = 1
   \<and> excerptScore literalEngine (toLowerCase (excerpt oldPost)) ''hello'' 0 = Inr 12"
  by code_simp

text \<open>
  C4. The claim: searchPosts returns a list for every query string, also when a token holds
  characters such as \<open>(\<close>, \<open>+\<close>, \<open>*\<close> or \<open>.\<close>. The code compiles each token that occurs in an
  excerpt or a body as a regular expression without escaping it: for the query \<open>C++\<close> and
  a record whose excerpt is \<open>Learn C++ today\<close> the constructor throws.
\<close>

theorem searchPosts_throws_on_token:
  "searchPosts literalEngine sampleNow ''C++'' noFilters [cppPost] = Inl SyntaxError"
  by code_simp

text \<open>
  C5. The claim: a record in which no query token occurs in the title, tags, category,
  author, excerpt or content has score 0 and is left out of the result, whatever its
  recency or view count. The code adds the recency bonus to every record: for the query
  \<open>react\<close> the record below gets nothing from the token, and is returned.
\<close>

theorem searchPosts_returns_unmatched_recent:
  "termsScore literalEngine recentPost (searchTerms ''react'') 0 = Inr 0
   \<and> searchPosts literalEngine sampleNow ''react'' noFilters [recentPost] = Inr [recentPost]"
  by code_simp

section \<open>Ranking and pagination in searchPosts\<close>

text \<open>
  C7. For a query with at least one token, getPosts first sorts the records that pass the
  other filters by the requested field and direction (creation time, descending, when
  none is requested) and cuts the sorted list to the page \<open>slice(offset, offset + limit)\<close>;
  only the records of that page are scored and ranked, and the ranked list is cut with
  \<open>slice(0, limit)\<close> once more when a limit is given. For a positive \<open>limit\<close> and an offset
  that is not negative the page is the \<open>limit\<close> records after the first \<open>offset\<close> ones, and
  the second cut then finds at most \<open>limit\<close> records and removes none of them. In the
  sample runs the only record that contains the token is on the page of one record when
  the view count, ascending, is requested, and outside of it in the default order.
\<close>

theorem searchPosts_scores_page_only:
  assumes "searchTerms query \<noteq> []"
      and "ordered = sort_key (requestedSortKey filters)
                      (filter (keep (filters\<lparr>f_search := None\<rparr>)) store)"
      and "off = (case f_offset filters of None \<Rightarrow> 0 | Some v \<Rightarrow> v)"
      and "pageSize = (case f_limit filters of None \<Rightarrow> int (length ordered)
                  | Some l \<Rightarrow> if l = 0 then int (length ordered) else l)"
      and "page = js_slice off (off + pageSize) ordered"
  shows "searchPosts eng now query filters store =
           (case scoredPosts eng now (searchTerms query) page of
              Inl e \<Rightarrow> Inl e
            | Inr scored \<Rightarrow>
                Inr (case f_limit filters of
                       None \<Rightarrow> relevantPosts scored
                     | Some l \<Rightarrow> if l = 0 then relevantPosts scored
                                else js_slice 0 l (relevantPosts scored)))
       \<and> (\<forall>scored. scoredPosts eng now (searchTerms query) page = Inr scored
             \<longrightarrow> map fst scored = page)
       \<and> (\<forall>l. f_limit filters = Some l \<and> 0 < l \<and> 0 \<le> off
             \<longrightarrow> page = take (nat l) (drop (nat off) ordered) \<and> length page \<le> nat l)"
proof -
  let ?f = "filters\<lparr>f_search := None\<rparr>"
  have page: "getPosts ?f store = page"
    unfolding assms(5) assms(4) assms(3) assms(2) getPosts_requested requestedSortKey_search Let_def
    by simp
  have "searchPosts eng now query filters store =
           (case scoredPosts eng now (searchTerms query) page of
              Inl e \<Rightarrow> Inl e
            | Inr scored \<Rightarrow>
                Inr (case f_limit filters of
                       None \<Rightarrow> relevantPosts scored
                     | Some l \<Rightarrow> if l = 0 then relevantPosts scored
                                else js_slice 0 l (relevantPosts scored)))"
    using assms(1) by (simp add: searchPosts_nonempty page applyLimit_def split: sum.splits)
  moreover have "\<forall>scored. scoredPosts eng now (searchTerms query) page = Inr scored
      \<longrightarrow> map fst scored = page"
    using scoredPosts_items by blast
  moreover have "\<forall>l. f_limit filters = Some l \<and> 0 < l \<and> 0 \<le> off
      \<longrightarrow> page = take (nat l) (drop (nat off) ordered) \<and> length page \<le> nat l"
  proof (intro allI impI)
    fix l assume h: "f_limit filters = Some l \<and> 0 < l \<and> 0 \<le> off"
    then have "pageSize = l" using assms(4) by simp
    then have "page = take (nat l) (drop (nat off) ordered)"
      using h assms(5) js_slice_page [of off l ordered] by simp
    then show "page = take (nat l) (drop (nat off) ordered) \<and> length page \<le> nat l" by simp
  qed
  ultimately show ?thesis by blast
qed

theorem searchPosts_scores_page_only_witness:
  "searchTerms ''python'' \<noteq> []
   \<and> searchPosts literalEngine sampleNow ''python''
       (noFilters\<lparr>f_limit := Some 1, f_sortBy := Some ByViewCount, f_sortOrder := Some Asc\<rparr>)
       [oldPost, viewedPost] = Inr [oldPost]
   \<and> searchPosts literalEngine sampleNow ''python'' (noFilters\<lparr>f_limit := Some 1\<rparr>)
       [oldPost, viewedPost] = Inr []
   \<and> searchPosts literalEngine sampleNow ''python'' noFilters [oldPost, viewedPost] = Inr [oldPost]"
proof -
  let ?f = "noFilters\<lparr>f_limit := Some 1, f_sortBy := Some ByViewCount, f_sortOrder := Some Asc\<rparr>"
  let ?store = "[oldPost, viewedPost]"
  have h1: "searchTerms ''python'' \<noteq> []" by code_simp
  have h2: "[oldPost, viewedPost]
      = sort_key (requestedSortKey ?f) (filter (keep (?f\<lparr>f_search := None\<rparr>)) ?store)"
    by code_simp
  have h3: "(0 :: int) = (case f_offset ?f of None \<Rightarrow> 0 | Some v \<Rightarrow> v)"
    by (simp add: noFilters_def)
  have h4: "(1 :: int) = (case f_limit ?f of None \<Rightarrow> int (length [oldPost, viewedPost])
                          | Some l \<Rightarrow> if l = 0 then int (length [oldPost, viewedPost]) else l)"
    by simp
  have h5: "[oldPost] = js_slice 0 (0 + 1) [oldPost, viewedPost]" by code_simp
  have ranked: "(case scoredPosts literalEngine sampleNow (searchTerms ''python'') [oldPost] of
                   Inl e \<Rightarrow> Inl e
                 | Inr scored \<Rightarrow>
                     Inr (case f_limit ?f of
                            None \<Rightarrow> relevantPosts scored
                          | Some l \<Rightarrow> if l = 0 then relevantPosts scored
                                     else js_slice 0 l (relevantPosts scored))) = Inr [oldPost]"
    by code_simp
  have default_order:
    "searchPosts literalEngine sampleNow ''python'' (noFilters\<lparr>f_limit := Some 1\<rparr>) ?store = Inr []"
    by code_simp
  have unlimited: "searchPosts literalEngine sampleNow ''python'' noFilters ?store = Inr [oldPost]"
    by code_simp
  from searchPosts_scores_page_only [OF h1 h2 h3 h4 h5, of literalEngine sampleNow]
  have "searchPosts literalEngine sampleNow ''python'' ?f ?store = Inr [oldPost]"
    unfolding ranked by blast
  with h1 default_order unlimited show ?thesis by blast
qed

text \<open>
  In doubles two scores can differ where the exact sums agree: \<open>7 + 3.03\<close> is below
  \<open>6 + 4.03\<close>. The record with the second score then comes first, whatever the dates.
\<close>

lemma searchPosts_compares_doubles:
  "scorePost literalEngine sampleNow (searchTerms ''zeta'') zetaA = Inr (js_add 7 (js_div 303 100))
   \<and> scorePost literalEngine sampleNow (searchTerms ''zeta'') zetaB = Inr (js_add 6 (js_div 403 100))
   \<and> js_add 7 (js_div 303 100) < js_add 6 (js_div 403 100)
   \<and> searchPosts literalEngine sampleNow ''zeta'' noFilters [zetaA, zetaB] = Inr [zetaB, zetaA]"
  by code_simp

text \<open>
  C8. For every query with at least one token, the records that searchPosts returns are
  among the candidates, and they are sorted by total score, descending, with equal scores
  sorted by effective date (\<open>publishedAt\<close> if set, else \<open>createdAt\<close>), descending. In the
  sample run the two records have the same score; getPosts hands them over in the order
  of their creation times, \<open>tieY\<close> first, and the ranking puts \<open>tieX\<close>, published later,
  first.
\<close>

theorem searchPosts_sorted_subset:
  assumes "searchTerms query \<noteq> []"
      and "searchPosts eng now query filters store = Inr result"
  shows "set result \<subseteq> set (getPosts (filters\<lparr>f_search := None\<rparr>) store)
       \<and> set result \<subseteq> set store
       \<and> sorted_wrt (ranksBefore eng now (searchTerms query)) result"
proof -
  let ?cands = "getPosts (filters\<lparr>f_search := None\<rparr>) store"
  from assms obtain scored where sc: "scoredPosts eng now (searchTerms query) ?cands = Inr scored"
    and res: "result = applyLimit (f_limit filters) (relevantPosts scored)"
    by (auto simp: searchPosts_nonempty split: sum.splits)
  from scoredPosts_items [OF sc] have fst: "map fst scored = ?cands"
    and items: "\<forall>item \<in> set scored. scorePost eng now (searchTerms query) (fst item) = Inr (snd item)"
    by auto
  have "set result \<subseteq> fst ` set scored"
    using set_applyLimit set_relevantPosts unfolding res by blast
  also have "\<dots> = set ?cands" using fst by (metis set_map)
  finally have sub: "set result \<subseteq> set ?cands" .
  moreover have "set ?cands \<subseteq> set store" using set_getPosts by blast
  moreover have "sorted_wrt (ranksBefore eng now (searchTerms query)) result"
    unfolding res by (intro sorted_applyLimit sorted_relevantPosts items)
  ultimately show ?thesis by blast
qed

theorem searchPosts_sorted_subset_witness:
  "searchTerms ''python'' \<noteq> []
   \<and> getPosts (noFilters\<lparr>f_search := None\<rparr>) [tieX, tieY] = [tieY, tieX]
   \<and> scorePost literalEngine sampleNow (searchTerms ''python'') tieX = Inr 81
   \<and> scorePost literalEngine sampleNow (searchTerms ''python'') tieY = Inr 81
   \<and> searchPosts literalEngine sampleNow ''python'' noFilters [tieX, tieY] = Inr [tieX, tieY]
   \<and> sorted_wrt (ranksBefore literalEngine sampleNow (searchTerms ''python'')) [tieX, tieY]"
proof -
  have h1: "searchTerms ''python'' \<noteq> []" by code_simp
  have h2: "searchPosts literalEngine sampleNow ''python'' noFilters [tieX, tieY] = Inr [tieX, tieY]"
    by code_simp
  have cands: "getPosts (noFilters\<lparr>f_search := None\<rparr>) [tieX, tieY] = [tieY, tieX]" by code_simp
  have sx: "scorePost literalEngine sampleNow (searchTerms ''python'') tieX = Inr 81" by code_simp
  have sy: "scorePost literalEngine sampleNow (searchTerms ''python'') tieY = Inr 81" by code_simp
  from searchPosts_sorted_subset [OF h1 h2] h1 h2 cands sx sy show ?thesis by blast
qed

text \<open>
  C9. For every query that is empty or holds only whitespace, which is the same as having
  no token, searchPosts scores nothing and removes nothing: it returns what getPosts
  returns for the given filters, and that list is in the requested order: by the value of
  the requested field (\<open>createdAt\<close>, \<open>updatedAt\<close>, \<open>publishedAt\<close> or else \<open>createdAt\<close>,
  \<open>viewCount\<close>, \<open>likeCount\<close>), ascending when that is requested and descending
  otherwise, and by the creation time, descending, when nothing is requested.
\<close>

theorem searchPosts_blank_query:
  assumes "list_all isWhiteSpace query"
  shows "searchTerms query = []
       \<and> searchPosts eng now query filters store = Inr (getPosts filters store)
       \<and> sorted_wrt (\<lambda>a b. requestedSortKey filters a \<le> requestedSortKey filters b)
           (getPosts filters store)
       \<and> (f_sortBy filters = None \<and> f_sortOrder filters = None
            \<longrightarrow> sorted_wrt (\<lambda>a b. createdAt b \<le> createdAt a) (getPosts filters store))"
proof -
  from assms have t: "searchTerms query = []" by (simp add: searchTerms_Nil_iff)
  then have "searchPosts eng now query filters store = Inr (getPosts filters store)"
    by (simp add: searchPosts_def Let_def)
  moreover have "f_sortBy filters = None \<and> f_sortOrder filters = None
      \<longrightarrow> sorted_wrt (\<lambda>a b. createdAt b \<le> createdAt a) (getPosts filters store)"
    using sorted_getPosts_requested [of filters store] by (auto simp: requestedSortKey_def)
  ultimately show ?thesis using t sorted_getPosts_requested by blast
qed

theorem searchPosts_blank_query_witness:
  "list_all isWhiteSpace ''  ''
   \<and> searchPosts literalEngine sampleNow ''  ''
       (noFilters\<lparr>f_sortBy := Some ByViewCount, f_sortOrder := Some Asc\<rparr>) [viewedPost, oldPost]
     = Inr [oldPost, viewedPost]
   \<and> searchPosts literalEngine sampleNow ''  '' (noFilters\<lparr>f_sortBy := Some ByViewCount\<rparr>)
       [oldPost, viewedPost] = Inr [viewedPost, oldPost]
   \<and> searchPosts literalEngine sampleNow ''  '' noFilters [oldPost, viewedPost]
     = Inr [viewedPost, oldPost]"
proof -
  let ?asc = "noFilters\<lparr>f_sortBy := Some ByViewCount, f_sortOrder := Some Asc\<rparr>"
  let ?desc = "noFilters\<lparr>f_sortBy := Some ByViewCount\<rparr>"
  have h: "list_all isWhiteSpace ''  ''" by code_simp
  have g1: "getPosts ?asc [viewedPost, oldPost] = [oldPost, viewedPost]" by code_simp
  have g2: "getPosts ?desc [oldPost, viewedPost] = [viewedPost, oldPost]" by code_simp
  have g3: "getPosts noFilters [oldPost, viewedPost] = [viewedPost, oldPost]" by code_simp
  from searchPosts_blank_query [OF h, of literalEngine sampleNow ?asc "[viewedPost, oldPost]"]
       searchPosts_blank_query [OF h, of literalEngine sampleNow ?desc "[oldPost, viewedPost]"]
       searchPosts_blank_query [OF h, of literalEngine sampleNow noFilters "[oldPost, viewedPost]"]
       h g1 g2 g3
  show ?thesis by simp
qed

section \<open>The publication invariant\<close>

text \<open>
  C6. The claim: createPost, updatePost, bulkPublishPosts and publishScheduledPosts keep
  \<open>published === true\<close> implies \<open>publishedAt\<close> is not null, and every record that updatePost
  produces satisfies it. updatePost sets \<open>publishedAt\<close> only when the new status is
  \<open>published\<close>: the request \<open>{ published: true }\<close> on a draft that was never published
  gives a record with \<open>published\<close> true and \<open>publishedAt\<close> null.
\<close>

theorem updatePost_published_without_date:
  "publishedHasDate draftPost
   \<and> (case updatePost sampleNow ''1'' (noUpdate\<lparr>u_published := Some True\<rparr>) [draftPost] of
        (Some p, store) \<Rightarrow>
           published p \<and> publishedAt p = None \<and> \<not> publishedHasDate p \<and> store = [p]
      | (None, store) \<Rightarrow> False)"
  by code_simp

end
